theory Spec2Isabelle
  imports Main
begin

section \<open>Errors and formatting\<close>

text \<open>
  A Go \<open>error\<close> value: the text its \<open>Error()\<close> method yields and the error it
  wraps, if any (what \<open>errors.Unwrap\<close> returns). A nil error is \<open>None\<close> of
  \<open>error option\<close>.
\<close>

datatype error = Error (message: string) (unwrap: "error option")

text \<open>\<open>fmt.Errorf(prefix + "%w", err)\<close>: the text of \<open>err\<close> appended, \<open>err\<close> wrapped.\<close>

definition Errorf_w :: "string \<Rightarrow> error \<Rightarrow> error" where
  "Errorf_w prefix e = Error (prefix @ message e) (Some e)"

text \<open>\<open>fmt.Errorf\<close> whose operands are strings and integers only: nothing is wrapped.\<close>

definition Errorf :: "string \<Rightarrow> error" where
  "Errorf msg = Error msg None"

text \<open>The verb \<open>%d\<close> on a Go \<open>int\<close>: decimal digits, a minus sign when negative.\<close>

fun fmt_nat :: "nat \<Rightarrow> string" where
  "fmt_nat n = (if n < 10 then [''0123456789'' ! n]
                else fmt_nat (n div 10) @ [''0123456789'' ! (n mod 10)])"

definition fmt_d :: "int \<Rightarrow> string" where
  "fmt_d i = (if i < 0 then CHR ''-'' # fmt_nat (nat (- i)) else fmt_nat (nat i))"

text \<open>
  \<open>fmt.Sprintln\<close> on operands already rendered as text: a space between operands, a
  newline at the end. \<open>log.Println\<close> writes this line (after its time stamp, which
  is left out).
\<close>

fun join_sp :: "string list \<Rightarrow> string" where
  "join_sp [] = []"
| "join_sp [x] = x"
| "join_sp (x # y # ys) = x @ CHR '' '' # join_sp (y # ys)"

definition Sprintln :: "string list \<Rightarrow> string" where
  "Sprintln ops = join_sp ops @ [CHR 0x0A]"

section \<open>Data model\<close>

record Application =
  Id :: string
  Name :: string

record AppList =
  AppCount :: int
  Applications :: "Application list"

record identityProvider =
  idp_Id :: string
  idp_Name :: string

record idpList =
  IdpCount :: int
  IdentityProviders :: "identityProvider list"

record InboundConfigurationProtocol_t =
  OauthConsumerSecret :: string

record RequestConfig =
  InboundAuthType :: string
  InboundAuthKey :: string
  InboundConfigurationProtocol :: InboundConfigurationProtocol_t

record InboundAuthenticationConfig_t =
  InboundAuthenticationRequestConfigs :: "RequestConfig list"

record AuthConfig =
  InboundAuthenticationConfig :: InboundAuthenticationConfig_t

text \<open>
  The two resource-type constants of package \<open>utils\<close> handed to the list request.
  Their string values are not part of the sources; only their identity matters here.
\<close>

datatype resource_type = APPLICATIONS | IDENTITY_PROVIDERS

section \<open>The remote server and the process\<close>

text \<open>
  An HTTP response as the code uses it: the status code and the body. A body has an
  identity (to record which bodies were closed) and the result \<open>ioutil.ReadAll\<close>
  gives on it.
\<close>

record body =
  body_id :: nat
  content :: "error + string"

record response =
  StatusCode :: int
  Body :: body

text \<open>
  The collaborators of package \<open>utils\<close> and the JSON decoder, none of them in the
  sources, taken as parameters. \<open>SendGetListRequest\<close> returns a Go pair
  \<open>(*http.Response, error)\<close>: either component may be nil, and it may depend on
  and change the state \<open>'n\<close> of the network.
\<close>

record 'n collab =
  SendGetListRequest :: "resource_type \<Rightarrow> int \<Rightarrow> 'n \<Rightarrow> (response option \<times> error option) \<times> 'n"
  ErrorCodes :: "int \<rightharpoonup> string"
  json_AppList :: "string \<Rightarrow> error + AppList"
  json_idpList :: "string \<Rightarrow> error + idpList"

text \<open>
  What a call leaves behind: the state of the network, the list requests sent, the lines
  written to the log and the bodies closed, each in order.
\<close>

record 'n world =
  net :: 'n
  sent :: "(resource_type \<times> int) list"
  logged :: "string list"
  closed :: "nat list"

text \<open>
  How a Go function ends: it returns, it panics (a nil pointer dereference), or the
  process exits (\<open>log.Fatalln\<close> calls \<open>os.Exit(1)\<close>, and deferred calls do not run).
\<close>

datatype 'a outcome = Return 'a | Panic | Exit

definition send :: "'n collab \<Rightarrow> resource_type \<Rightarrow> int \<Rightarrow> 'n world
    \<Rightarrow> (response option \<times> error option) \<times> 'n world" where
  "send c rt limit w =
     (case SendGetListRequest c rt limit (net w) of
        (res, n') \<Rightarrow> (res, w\<lparr>net := n', sent := sent w @ [(rt, limit)]\<rparr>))"

definition Println :: "string list \<Rightarrow> 'n world \<Rightarrow> 'n world" where
  "Println ops w = w\<lparr>logged := logged w @ [Sprintln ops]\<rparr>"

definition Close :: "body \<Rightarrow> 'n world \<Rightarrow> 'n world" where
  "Close b w = w\<lparr>closed := closed w @ [body_id b]\<rparr>"

section \<open>Resource lister: applications\<close>

text \<open>
  \<open>getTotalAppCount\<close>. After \<open>defer resp.Body.Close()\<close> every return closes the
  body; the success path closes it once more before returning. \<open>resp.Body\<close> on a nil
  \<open>resp\<close> panics.
\<close>

definition getTotalAppCount :: "'n collab \<Rightarrow> 'n world \<Rightarrow> (int \<times> error option) outcome \<times> 'n world" where
  "getTotalAppCount c w =
     (case send c APPLICATIONS (- 1) w of
        ((resp, err), w1) \<Rightarrow>
          (case err of
             Some e \<Rightarrow> (Return (- 1, Some (Errorf_w ''failed to retrieve available app list. '' e)), w1)
           | None \<Rightarrow>
              (case resp of
                 None \<Rightarrow> (Panic, w1)
               | Some r \<Rightarrow>
                  if StatusCode r = 200 then
                    (case content (Body r) of
                       Inl e \<Rightarrow> (Return (- 1, Some (Errorf_w ''error when reading the retrived app list. '' e)),
                                 Close (Body r) w1)
                     | Inr raw \<Rightarrow>
                        (case json_AppList c raw of
                           Inl e \<Rightarrow> (Return (- 1, Some (Errorf_w ''error when unmarshalling the retrived app list. '' e)),
                                     Close (Body r) w1)
                         | Inr list \<Rightarrow> (Return (AppCount list, None), Close (Body r) (Close (Body r) w1))))
                  else
                    (case ErrorCodes c (StatusCode r) of
                       Some msg \<Rightarrow>
                         (Return (- 1, Some (Errorf (''error while retrieving app count. Status code: ''
                                    @ fmt_d (StatusCode r) @ '', Error: '' @ msg))),
                          Close (Body r) w1)
                     | None \<Rightarrow> (Return (- 1, Some (Errorf ''error while retrieving application count'')),
                                Close (Body r) w1)))))"

text \<open>
  \<open>getAppList\<close> has one result, the list (nil is the empty list). Both error checks
  only log and go on. \<open>log.Fatalln\<close> prints and exits the process. The
  \<open>tabwriter\<close> is flushed at return with nothing written to it, so it leaves no
  trace.
\<close>

definition getAppList :: "'n collab \<Rightarrow> 'n world \<Rightarrow> (Application list) outcome \<times> 'n world" where
  "getAppList c w =
     (case getTotalAppCount c w of
        (Panic, w1) \<Rightarrow> (Panic, w1)
      | (Exit, w1) \<Rightarrow> (Exit, w1)
      | (Return (totalAppCount, err), w1) \<Rightarrow>
          (let w2 = (case err of
                       Some e \<Rightarrow> Println [''Error while retrieving application count. Retrieving only the default count.'',
                                           message e] w1
                     | None \<Rightarrow> w1)
           in case send c APPLICATIONS totalAppCount w2 of
                ((resp, err'), w3) \<Rightarrow>
                  (let w4 = (case err' of
                               Some e \<Rightarrow> Println [''Error while retrieving application list'', message e] w3
                             | None \<Rightarrow> w3)
                   in case resp of
                        None \<Rightarrow> (Panic, w4)
                      | Some r \<Rightarrow>
                         if StatusCode r = 200 then
                           (case content (Body r) of
                              Inl e \<Rightarrow> (Exit, Println [message e] w4)
                            | Inr raw \<Rightarrow>
                               (case json_AppList c raw of
                                  Inl e \<Rightarrow> (Exit, Println [message e] w4)
                                | Inr list \<Rightarrow> (Return (Applications list), Close (Body r) (Close (Body r) w4))))
                         else
                           (case ErrorCodes c (StatusCode r) of
                              Some msg \<Rightarrow> (Return [], Close (Body r) (Println [msg] w4))
                            | None \<Rightarrow> (Return [], Close (Body r)
                                          (Println [''Error while retrieving application list''] w4))))))"

definition getDeployedAppNames :: "'n collab \<Rightarrow> 'n world \<Rightarrow> (string list) outcome \<times> 'n world" where
  "getDeployedAppNames c w =
     (case getAppList c w of
        (Return apps, w1) \<Rightarrow> (Return (map Name apps), w1)
      | (Panic, w1) \<Rightarrow> (Panic, w1)
      | (Exit, w1) \<Rightarrow> (Exit, w1))"

section \<open>Resource lister: identity providers\<close>

definition getTotalIdpCount :: "'n collab \<Rightarrow> 'n world \<Rightarrow> (int \<times> error option) outcome \<times> 'n world" where
  "getTotalIdpCount c w =
     (case send c IDENTITY_PROVIDERS (- 1) w of
        ((resp, err), w1) \<Rightarrow>
          (case err of
             Some e \<Rightarrow> (Return (- 1, Some (Errorf_w ''failed to retrieve available IDP list. '' e)), w1)
           | None \<Rightarrow>
              (case resp of
                 None \<Rightarrow> (Panic, w1)
               | Some r \<Rightarrow>
                  if StatusCode r = 200 then
                    (case content (Body r) of
                       Inl e \<Rightarrow> (Return (- 1, Some (Errorf_w ''error when reading the retrived IDP list. '' e)),
                                 Close (Body r) w1)
                     | Inr raw \<Rightarrow>
                        (case json_idpList c raw of
                           Inl e \<Rightarrow> (Return (- 1, Some (Errorf_w ''error when unmarshalling the retrived IDP list. '' e)),
                                     Close (Body r) w1)
                         | Inr list \<Rightarrow> (Return (IdpCount list, None), Close (Body r) (Close (Body r) w1))))
                  else
                    (case ErrorCodes c (StatusCode r) of
                       Some msg \<Rightarrow>
                         (Return (- 1, Some (Errorf (''error while retrieving IDP count. Status code: ''
                                    @ fmt_d (StatusCode r) @ '', Error: '' @ msg))),
                          Close (Body r) w1)
                     | None \<Rightarrow> (Return (- 1, Some (Errorf ''error while retrieving identity provider count'')),
                                Close (Body r) w1)))))"

text \<open>
  \<open>getIdpList\<close> returns the list and an error. A failed count is logged only; a
  failed list request returns before \<open>resp\<close> is touched.
\<close>

definition getIdpList :: "'n collab \<Rightarrow> 'n world
    \<Rightarrow> (identityProvider list \<times> error option) outcome \<times> 'n world" where
  "getIdpList c w =
     (case getTotalIdpCount c w of
        (Panic, w1) \<Rightarrow> (Panic, w1)
      | (Exit, w1) \<Rightarrow> (Exit, w1)
      | (Return (idpCount, err), w1) \<Rightarrow>
          (let w2 = (case err of
                       Some e \<Rightarrow> Println [''Error: when retrieving IDP count. Retrieving only the default count.'',
                                           message e] w1
                     | None \<Rightarrow> w1)
           in case send c IDENTITY_PROVIDERS idpCount w2 of
                ((resp, err'), w3) \<Rightarrow>
                  (case err' of
                     Some e \<Rightarrow> (Return ([], Some (Errorf_w ''failed to retrieve available IDP list. '' e)), w3)
                   | None \<Rightarrow>
                      (case resp of
                         None \<Rightarrow> (Panic, w3)
                       | Some r \<Rightarrow>
                          if StatusCode r = 200 then
                            (case content (Body r) of
                               Inl e \<Rightarrow> (Return ([], Some (Errorf_w ''error when reading the retrived IDP list. '' e)),
                                         Close (Body r) w3)
                             | Inr raw \<Rightarrow>
                                (case json_idpList c raw of
                                   Inl e \<Rightarrow>
                                     (Return ([], Some (Errorf_w ''error when unmarshalling the retrived IDP list. '' e)),
                                      Close (Body r) w3)
                                 | Inr list \<Rightarrow> (Return (IdentityProviders list, None),
                                                Close (Body r) (Close (Body r) w3))))
                          else
                            (case ErrorCodes c (StatusCode r) of
                               Some msg \<Rightarrow>
                                 (Return ([], Some (Errorf (''error while retrieving IDP list. Status code: ''
                                            @ fmt_d (StatusCode r) @ '', Error: '' @ msg))),
                                  Close (Body r) w3)
                             | None \<Rightarrow> (Return ([], Some (Errorf ''error while retrieving identity provider list'')),
                                        Close (Body r) w3))))))"

definition getDeployedIdpNames :: "'n collab \<Rightarrow> 'n world \<Rightarrow> (string list) outcome \<times> 'n world" where
  "getDeployedIdpNames c w =
     (case getIdpList c w of
        (Return (idps, err), w1) \<Rightarrow>
          (case err of
             Some e \<Rightarrow> (Return [], w1)
           | None \<Rightarrow> (Return (map idp_Name idps), w1))
      | (Panic, w1) \<Rightarrow> (Panic, w1)
      | (Exit, w1) \<Rightarrow> (Exit, w1))"

section \<open>Keyword resolver\<close>

text \<open>
  \<open>utils.KEYWORD_CONFIGS\<close>: the global mapping and the two override tables. A Go map
  may be nil, which is \<open>None\<close>. The values of the maps are arbitrary (\<open>interface{}\<close>).
\<close>

record 'v KeywordConfigs =
  KeywordMappings :: "(string \<rightharpoonup> 'v) option"
  ApplicationConfigs :: "(string \<rightharpoonup> 'v) option"
  IdpConfigs :: "(string \<rightharpoonup> 'v) option"

text \<open>
  \<open>utils.ResolveAdvancedKeywordMapping\<close> is not in the sources and is the first
  parameter of both functions.
\<close>

definition getAppKeywordMapping ::
  "(string \<Rightarrow> (string \<rightharpoonup> 'v) \<Rightarrow> (string \<rightharpoonup> 'v) option) \<Rightarrow> 'v KeywordConfigs \<Rightarrow> string
     \<Rightarrow> (string \<rightharpoonup> 'v) option" where
  "getAppKeywordMapping ResolveAdvancedKeywordMapping KEYWORD_CONFIGS appName =
     (case ApplicationConfigs KEYWORD_CONFIGS of
        Some table \<Rightarrow> ResolveAdvancedKeywordMapping appName table
      | None \<Rightarrow> KeywordMappings KEYWORD_CONFIGS)"

definition getIdpKeywordMapping ::
  "(string \<Rightarrow> (string \<rightharpoonup> 'v) \<Rightarrow> (string \<rightharpoonup> 'v) option) \<Rightarrow> 'v KeywordConfigs \<Rightarrow> string
     \<Rightarrow> (string \<rightharpoonup> 'v) option" where
  "getIdpKeywordMapping ResolveAdvancedKeywordMapping KEYWORD_CONFIGS idpName =
     (case IdpConfigs KEYWORD_CONFIGS of
        Some table \<Rightarrow> ResolveAdvancedKeywordMapping idpName table
      | None \<Rightarrow> KeywordMappings KEYWORD_CONFIGS)"

section \<open>Auth-type classifier and protected-resource guard\<close>

text \<open>
  The libraries and the process-wide configuration the classifiers read, none of them in
  the sources:
  \<^item> \<open>yaml_Unmarshal\<close>: \<open>yaml.Unmarshal\<close> into an \<open>AuthConfig\<close>;
  \<^item> \<open>unicode_ToLower\<close>: \<open>strings.Map(unicode.ToLower, s)\<close>, which
    \<open>strings.ToLower\<close> applies to a string with a byte outside ASCII;
  \<^item> \<open>ReadFile\<close>, \<open>filepath_Join\<close>: \<open>ioutil.ReadFile\<close> and \<open>filepath.Join\<close>;
  \<^item> \<open>Sprintf0\<close>: what \<open>fmt\<close> makes of a format string with no operands;
  \<^item> \<open>ClientId\<close>: \<open>utils.SERVER_CONFIGS.ClientId\<close>.
\<close>

record lib =
  yaml_Unmarshal :: "string \<Rightarrow> error + AuthConfig"
  unicode_ToLower :: "string \<Rightarrow> string"
  ReadFile :: "string \<Rightarrow> error + string"
  filepath_Join :: "string \<Rightarrow> string \<Rightarrow> string"
  Sprintf0 :: "string \<Rightarrow> string"
  ClientId :: string

text \<open>
  Modelled from the spec: the constant \<open>utils.OAUTH2\<close>, which is not in the sources.
  The spec gives the OAuth2 marker as \<open>"oauth2"\<close>.
\<close>

definition OAUTH2 :: string where
  "OAUTH2 = ''oauth2''"

text \<open>
  \<open>strings.ToLower\<close>: on a string of ASCII bytes only, each of \<open>A\<close>..\<open>Z\<close> is
  moved to lower case and every other byte kept; any other string goes through the
  Unicode tables.
\<close>

definition lower_byte :: "char \<Rightarrow> char" where
  "lower_byte ch = (if 65 \<le> (of_char ch :: nat) \<and> (of_char ch :: nat) \<le> 90
                    then char_of ((of_char ch :: nat) + 32) else ch)"

definition ToLower :: "lib \<Rightarrow> string \<Rightarrow> string" where
  "ToLower l s = (if list_all (\<lambda>ch. (of_char ch :: nat) < 128) s then map lower_byte s
                  else unicode_ToLower l s)"

definition unmarshalAuthConfig :: "lib \<Rightarrow> string \<Rightarrow> error + AuthConfig" where
  "unmarshalAuthConfig l data =
     (case yaml_Unmarshal l data of
        Inl e \<Rightarrow> Inl (Errorf (''failed to unmarshal auth config: '' @ message e))
      | Inr config \<Rightarrow> Inr config)"

text \<open>The loop of \<open>isOauthApp\<close>: the first entry of OAuth2 type ends it with true.\<close>

fun isOauthApp_loop :: "lib \<Rightarrow> RequestConfig list \<Rightarrow> bool" where
  "isOauthApp_loop l [] = False"
| "isOauthApp_loop l (requestConfig # rest) =
     (if ToLower l (InboundAuthType requestConfig) = OAUTH2 then True
      else isOauthApp_loop l rest)"

definition isOauthApp :: "lib \<Rightarrow> string \<Rightarrow> bool \<times> error option" where
  "isOauthApp l fileData =
     (case unmarshalAuthConfig l fileData of
        Inl err \<Rightarrow> (False, Some err)
      | Inr config \<Rightarrow>
          (isOauthApp_loop l (InboundAuthenticationRequestConfigs (InboundAuthenticationConfig config)), None))"

fun isOauthSecretGiven_loop :: "lib \<Rightarrow> RequestConfig list \<Rightarrow> bool" where
  "isOauthSecretGiven_loop l [] = False"
| "isOauthSecretGiven_loop l (requestConfig # rest) =
     (if ToLower l (InboundAuthType requestConfig) = OAUTH2
      then (if OauthConsumerSecret (InboundConfigurationProtocol requestConfig) \<noteq> []
            then True else isOauthSecretGiven_loop l rest)
      else isOauthSecretGiven_loop l rest)"

text \<open>\<open>fmt.Errorf(err.Error())\<close>: the text of the error is the format string.\<close>

definition isOauthSecretGiven :: "lib \<Rightarrow> string \<Rightarrow> bool \<times> error option" where
  "isOauthSecretGiven l modifiedFileData =
     (case unmarshalAuthConfig l modifiedFileData of
        Inl err \<Rightarrow> (False, Some (Errorf (Sprintf0 l (message err))))
      | Inr config \<Rightarrow>
          (isOauthSecretGiven_loop l
             (InboundAuthenticationRequestConfigs (InboundAuthenticationConfig config)), None))"

text \<open>
  \<open>filepath.Ext\<close>: the suffix from the last dot of the last path element, empty
  without one (the separator is \<open>/\<close>). \<open>strings.TrimSuffix\<close> cuts a suffix that is
  there.
\<close>

fun Ext_scan :: "string \<Rightarrow> string \<Rightarrow> string" where
  "Ext_scan [] acc = []"
| "Ext_scan (ch # before) acc =
     (if ch = CHR ''/'' then []
      else if ch = CHR ''.'' then ch # acc
      else Ext_scan before (ch # acc))"

definition Ext :: "string \<Rightarrow> string" where
  "Ext path = Ext_scan (rev path) []"

definition TrimSuffix :: "string \<Rightarrow> string \<Rightarrow> string" where
  "TrimSuffix s suf =
     (if length suf \<le> length s \<and> drop (length s - length suf) s = suf
      then take (length s - length suf) s else s)"

text \<open>An \<open>os.FileInfo\<close>, of which only \<open>Name()\<close> is read.\<close>

record FileInfo =
  file_Name :: string

fun isToolMgtApp_loop :: "lib \<Rightarrow> RequestConfig list \<Rightarrow> bool" where
  "isToolMgtApp_loop l [] = False"
| "isToolMgtApp_loop l (requestConfig # rest) =
     (if InboundAuthKey requestConfig = ClientId l then True
      else isToolMgtApp_loop l rest)"

text \<open>
  \<open>isToolMgtApp\<close> returns the flag, the error and the lines it wrote to the log (one
  line, when the flag is true).
\<close>

definition isToolMgtApp :: "lib \<Rightarrow> FileInfo \<Rightarrow> string \<Rightarrow> (bool \<times> error option) \<times> string list" where
  "isToolMgtApp l file importFilePath =
     (let appFilePath = filepath_Join l importFilePath (file_Name file)
      in case ReadFile l appFilePath of
           Inl err \<Rightarrow> ((False, Some (Errorf (''failed to read file: '' @ message err))), [])
         | Inr fileData \<Rightarrow>
            (case unmarshalAuthConfig l fileData of
               Inl err \<Rightarrow> ((False, Some (Errorf (Sprintf0 l (message err)))), [])
             | Inr config \<Rightarrow>
                 if isToolMgtApp_loop l
                      (InboundAuthenticationRequestConfigs (InboundAuthenticationConfig config))
                 then ((True, None),
                       [''Info: Tool Management App: ''
                          @ TrimSuffix (file_Name file) (Ext (file_Name file))
                          @ '' is excluded from deletion.'' @ [CHR 0x0A]])
                 else ((False, None), [])))"

section \<open>Secret masker\<close>

text \<open>
  The pattern is \<open>(?m)(^\s*oauthConsumerSecret:\s*)null\s*$\<close>, in the syntax of Go's
  \<open>regexp\<close>: \<open>\s\<close> is one of tab, line feed, form feed, carriage return and space;
  with \<open>(?m)\<close>, \<open>^\<close> holds at the start of the text and after a line feed, and
  \<open>$\<close> at the end of the text and before a line feed; \<open>*\<close> is greedy. Every
  character of the pattern is ASCII, so matching on bytes is matching on runes.
\<close>

definition NL :: char where
  "NL = CHR 0x0A"

definition isSpace :: "char \<Rightarrow> bool" where
  "isSpace ch = (ch = CHR 0x09 \<or> ch = CHR 0x0A \<or> ch = CHR 0x0C \<or> ch = CHR 0x0D \<or> ch = CHR 0x20)"

definition label :: string where
  "label = ''oauthConsumerSecret:''"

text \<open>A literal of the pattern: the rest of the text behind it, if the text starts with it.\<close>

fun literal :: "string \<Rightarrow> string \<Rightarrow> string option" where
  "literal [] s = Some s"
| "literal (p # ps) [] = None"
| "literal (p # ps) (ch # s) = (if p = ch then literal ps s else None)"

text \<open>\<open>$\<close> at the head of the remaining text.\<close>

definition at_eol :: "string \<Rightarrow> bool" where
  "at_eol s = (case s of [] \<Rightarrow> True | ch # _ \<Rightarrow> ch = NL)"

text \<open>
  The last \<open>\s*\<close> followed by \<open>$\<close>: the star has taken \<open>k\<close> characters of \<open>s\<close>;
  if \<open>$\<close> does not hold behind them, it gives one back and tries again. The result is
  the whitespace consumed and the text behind the match.
\<close>

fun spaces_eol :: "nat \<Rightarrow> string \<Rightarrow> (string \<times> string) option" where
  "spaces_eol 0 s = (if at_eol s then Some ([], s) else None)"
| "spaces_eol (Suc k) s =
     (if at_eol (drop (Suc k) s) then Some (take (Suc k) s, drop (Suc k) s)
      else spaces_eol k s)"

text \<open>
  A match that starts at the head of \<open>s\<close> (where \<open>^\<close> is known to hold): the text
  of group 1, the text matched behind group 1, and the text behind the match. Each of
  the first two stars is followed by a literal that starts with a character that is not
  whitespace, so it has to take all the whitespace there is.
\<close>

definition match_at :: "string \<Rightarrow> (string \<times> string \<times> string) option" where
  "match_at s =
     (case literal label (dropWhile isSpace s) of
        None \<Rightarrow> None
      | Some r2 \<Rightarrow>
         (case literal ''null'' (dropWhile isSpace r2) of
            None \<Rightarrow> None
          | Some r4 \<Rightarrow>
             (case spaces_eol (length (takeWhile isSpace r4)) r4 of
                None \<Rightarrow> None
              | Some (ws3, rest) \<Rightarrow>
                  Some (takeWhile isSpace s @ label @ takeWhile isSpace r2, ''null'' @ ws3, rest))))"

lemma spaces_eol_SomeD:
  "spaces_eol k s = Some (a, rest) \<Longrightarrow> \<exists>j\<le>k. a = take j s \<and> rest = drop j s \<and> at_eol rest"
proof (induction k)
  case 0
  then show ?case by (auto split: if_splits)
next
  case (Suc k)
  show ?case
  proof (cases "at_eol (drop (Suc k) s)")
    case True
    with Suc.prems show ?thesis by auto
  next
    case False
    with Suc.prems have "spaces_eol k s = Some (a, rest)" by simp
    from Suc.IH [OF this] show ?thesis by (auto intro: le_SucI)
  qed
qed

lemma literal_length: "literal p s = Some r \<Longrightarrow> length s = length p + length r"
  by (induction p s rule: literal.induct) (auto split: if_splits)

lemma match_at_shorter:
  assumes "match_at s = Some (g1, m, rest)"
  shows "length rest < length s"
proof -
  from assms obtain r2 r4 ws3 where
    r2: "literal label (dropWhile isSpace s) = Some r2" and
    r4: "literal ''null'' (dropWhile isSpace r2) = Some r4" and
    e: "spaces_eol (length (takeWhile isSpace r4)) r4 = Some (ws3, rest)"
    by (auto simp: match_at_def split: option.splits)
  from spaces_eol_SomeD [OF e] have "length rest \<le> length r4" by auto
  moreover from literal_length [OF r4] have "length r4 < length (dropWhile isSpace r2)" by simp
  moreover have "length (dropWhile isSpace r2) \<le> length r2" by (rule length_dropWhile_le)
  moreover from literal_length [OF r2] have "length r2 \<le> length (dropWhile isSpace s)" by simp
  moreover have "length (dropWhile isSpace s) \<le> length s" by (rule length_dropWhile_le)
  ultimately show ?thesis by linarith
qed

text \<open>
  \<open>ReplaceAllString\<close> with the template \<open>${1}\<close> followed by the mask \<open>M\<close> (the
  constant \<open>utils.SENSITIVE_FIELD_MASK\<close>, not in the sources; the template is group 1
  followed by \<open>M\<close> as long as \<open>M\<close> has no \<open>$\<close>). The search moves through the
  text from the left; \<open>bol\<close> says whether \<open>^\<close> holds at the head of the remaining
  text, which is decided by the character before it in the whole text. Where a match
  starts, group 1 and the mask are written and the search goes on behind the match;
  anywhere else the character is copied.
\<close>

function replaceAll :: "string \<Rightarrow> bool \<Rightarrow> string \<Rightarrow> string" where
  "replaceAll M bol [] = []"
| "replaceAll M bol (ch # s) =
     (case (if bol then match_at (ch # s) else None) of
        Some (g1, m, rest) \<Rightarrow> g1 @ M @ replaceAll M (last m = NL) rest
      | None \<Rightarrow> ch # replaceAll M (ch = NL) s)"
  by pat_completeness auto
termination
  by (relation "measure (\<lambda>(M, bol, s). length s)")
     (auto split: if_splits dest: match_at_shorter)

definition maskOAuthConsumerSecret :: "string \<Rightarrow> string \<Rightarrow> string" where
  "maskOAuthConsumerSecret M fileContent = replaceAll M True fileContent"

text \<open>Whether the pattern has a match in the remaining text.\<close>

fun has_match :: "bool \<Rightarrow> string \<Rightarrow> bool" where
  "has_match bol [] = False"
| "has_match bol (ch # s) = ((bol \<and> match_at (ch # s) \<noteq> None) \<or> has_match (ch = NL) s)"

text \<open>
  What a mask may be for the results below: not empty, free of \<open>$\<close> and of line
  feeds, and starting with a character that is neither whitespace nor the first letter of
  \<open>oauthConsumerSecret:\<close> or of \<open>null\<close>.
\<close>

definition mask_ok :: "string \<Rightarrow> bool" where
  "mask_ok M = (M \<noteq> [] \<and> CHR ''$'' \<notin> set M \<and> NL \<notin> set M
                \<and> \<not> isSpace (hd M) \<and> hd M \<noteq> CHR ''o'' \<and> hd M \<noteq> CHR ''n'')"

subsection \<open>The masker as the spec words it\<close>





text \<open>
  \<open>masked M bol x y\<close>: \<open>y\<close> is \<open>x\<close> with some places rewritten, where
  \<open>bol\<close> says whether the head of \<open>x\<close> is the start of the text or stands just
  behind a line feed. A place that is rewritten starts where \<open>bol\<close> holds and is
  whitespace, the label, whitespace, the literal \<open>null\<close> and whitespace, followed by
  a line feed or the end of the text: a match of the pattern. There the \<open>null\<close> and
  the whitespace behind it are replaced by \<open>M\<close>. Everything else is the same in both.
\<close>

inductive masked :: "string \<Rightarrow> bool \<Rightarrow> string \<Rightarrow> string \<Rightarrow> bool" where
  masked_Nil: "masked M bol [] []"
| masked_keep: "masked M (ch = NL) xs ys \<Longrightarrow> masked M bol (ch # xs) (ch # ys)"
| masked_site:
    "bol \<Longrightarrow> list_all isSpace ws1 \<Longrightarrow> list_all isSpace ws2 \<Longrightarrow> list_all isSpace ws3
     \<Longrightarrow> at_eol xs \<Longrightarrow> masked M (last (''null'' @ ws3) = NL) xs ys
     \<Longrightarrow> masked M bol (ws1 @ label @ ws2 @ ''null'' @ ws3 @ xs) (ws1 @ label @ ws2 @ M @ ys)"

section \<open>Concrete inputs\<close>

text \<open>A parsed file with a SAML entry and an OAuth2 entry that carries a secret.\<close>

definition demo_config :: AuthConfig where
  "demo_config = \<lparr>InboundAuthenticationConfig = \<lparr>InboundAuthenticationRequestConfigs =
          [\<lparr>InboundAuthType = ''samlsso'', InboundAuthKey = ''KEY1'',
            InboundConfigurationProtocol = \<lparr>OauthConsumerSecret = []\<rparr>\<rparr>,
           \<lparr>InboundAuthType = ''OAuth2'', InboundAuthKey = ''client1'',
            InboundConfigurationProtocol = \<lparr>OauthConsumerSecret = ''s3cret''\<rparr>\<rparr>]\<rparr>\<rparr>"

definition demo_lib :: lib where
  "demo_lib = \<lparr>yaml_Unmarshal = (\<lambda>s. if s = ''oauth'' then Inr demo_config
      else if s = ''empty'' then
        Inr \<lparr>InboundAuthenticationConfig = \<lparr>InboundAuthenticationRequestConfigs = []\<rparr>\<rparr>
      else Inl (Error ''yaml: bad'' None)),
    unicode_ToLower = (\<lambda>s. s),
    ReadFile = (\<lambda>p. if p = ''dir/app.yml'' then Inr ''oauth'' else if p = ''dir/bad.yml'' then Inr ''???''
       else Inl (Error ''open: no such file'' None)),
    filepath_Join = (\<lambda>a b. a @ ''/'' @ b),
    Sprintf0 = (\<lambda>s. s),
    ClientId = ''client1''\<rparr>"

definition demo_resolve :: "string \<Rightarrow> (string \<rightharpoonup> int) \<Rightarrow> (string \<rightharpoonup> int) option" where
  "demo_resolve name table = Some (table(''NAME'' \<mapsto> int (length name)))"

definition demo_keywords :: "int KeywordConfigs" where
  "demo_keywords = \<lparr>KeywordMappings = Some [''ENV'' \<mapsto> 1], ApplicationConfigs = None,
     IdpConfigs = Some [''ENV'' \<mapsto> 2]\<rparr>"

text \<open>
  A server that answers the list requests by their number, and the answers used below:
  a list of three, a recognised and an unrecognised failure status, and a transport error
  with a nil response.
\<close>

definition three_apps :: "Application list" where
  "three_apps = [\<lparr>Id = ''1'', Name = ''alpha''\<rparr>, \<lparr>Id = ''2'', Name = ''beta''\<rparr>,
                 \<lparr>Id = ''3'', Name = ''gamma''\<rparr>]"

definition three_idps :: "identityProvider list" where
  "three_idps = [\<lparr>idp_Id = ''1'', idp_Name = ''google''\<rparr>, \<lparr>idp_Id = ''2'', idp_Name = ''github''\<rparr>,
                 \<lparr>idp_Id = ''3'', idp_Name = ''ldap''\<rparr>]"

definition server :: "(nat \<Rightarrow> response option \<times> error option) \<Rightarrow> nat collab" where
  "server answer =
     \<lparr>SendGetListRequest = (\<lambda>rt limit calls. (answer calls, Suc calls)),
      ErrorCodes = [404 \<mapsto> ''Not Found''],
      json_AppList = (\<lambda>raw. if raw = ''three'' then Inr \<lparr>AppCount = 3, Applications = three_apps\<rparr>
                            else Inl (Error ''unexpected end of JSON input'' None)),
      json_idpList = (\<lambda>raw. if raw = ''three'' then Inr \<lparr>IdpCount = 3, IdentityProviders = three_idps\<rparr>
                            else Inl (Error ''unexpected end of JSON input'' None))\<rparr>"

definition timeout :: error where
  "timeout = Error ''dial tcp: timeout'' None"

definition answer_ok :: "nat \<Rightarrow> response option \<times> error option" where
  "answer_ok calls = (Some \<lparr>StatusCode = 200, Body = \<lparr>body_id = calls, content = Inr ''three''\<rparr>\<rparr>, None)"

definition answer_404 :: "nat \<Rightarrow> response option \<times> error option" where
  "answer_404 calls = (Some \<lparr>StatusCode = 404, Body = \<lparr>body_id = calls, content = Inr []\<rparr>\<rparr>, None)"

definition answer_down :: "nat \<Rightarrow> response option \<times> error option" where
  "answer_down calls = (None, Some timeout)"

definition answer_500 :: "nat \<Rightarrow> response option \<times> error option" where
  "answer_500 calls = (Some \<lparr>StatusCode = 500, Body = \<lparr>body_id = calls, content = Inr []\<rparr>\<rparr>, None)"

definition answer_ok_then_404 :: "nat \<Rightarrow> response option \<times> error option" where
  "answer_ok_then_404 calls = (if calls = 0 then answer_ok calls else answer_404 calls)"

definition answer_flaky :: "nat \<Rightarrow> response option \<times> error option" where
  "answer_flaky calls = (if calls = 0 then answer_down calls else answer_ok calls)"

definition start :: "nat world" where
  "start = \<lparr>net = 0, sent = [], logged = [], closed = []\<rparr>"

lemmas demo_defs = server_def answer_flaky_def answer_500_def answer_ok_then_404_def answer_ok_def answer_404_def answer_down_def start_def timeout_def
  send_def Println_def Close_def Errorf_def Errorf_w_def

section \<open>Resource lister: results\<close>

lemma getTotalAppCount_failed:
  "getTotalAppCount c w = (Return (n, Some e), w1) \<Longrightarrow> n = - 1"
  by (auto simp: getTotalAppCount_def split: prod.splits option.splits sum.splits if_splits)

lemma getTotalIdpCount_failed:
  "getTotalIdpCount c w = (Return (n, Some e), w1) \<Longrightarrow> n = - 1"
  by (auto simp: getTotalIdpCount_def split: prod.splits option.splits sum.splits if_splits)

text \<open>
  Claim C1. For applications and for identity providers: when the count query has failed,
  the list function logs the failure and sends the list query all the same, with the size
  \<open>-1\<close> that the failed count returned (the value that stands for "no size given"); if
  that query answers with status 200 and a body that decodes to a list, the list function
  returns exactly the items of that list, and no error.
\<close>

theorem getList_after_failed_count:
  "(getTotalAppCount c w = (Return (n, Some e), w1) \<longrightarrow>
      SendGetListRequest c APPLICATIONS (- 1) (net w1) = ((Some r, None), n') \<longrightarrow>
      StatusCode r = 200 \<longrightarrow> content (Body r) = Inr raw \<longrightarrow> json_AppList c raw = Inr lst \<longrightarrow>
      n = - 1
      \<and> fst (getAppList c w) = Return (Applications lst)
      \<and> sent (snd (getAppList c w)) = sent w1 @ [(APPLICATIONS, - 1)]
      \<and> logged (snd (getAppList c w)) = logged w1 @
           [Sprintln [''Error while retrieving application count. Retrieving only the default count.'',
                      message e]])
   \<and> (getTotalIdpCount c w = (Return (n, Some e), w1) \<longrightarrow>
      SendGetListRequest c IDENTITY_PROVIDERS (- 1) (net w1) = ((Some r, None), n') \<longrightarrow>
      StatusCode r = 200 \<longrightarrow> content (Body r) = Inr raw \<longrightarrow> json_idpList c raw = Inr lst' \<longrightarrow>
      n = - 1
      \<and> fst (getIdpList c w) = Return (IdentityProviders lst', None)
      \<and> sent (snd (getIdpList c w)) = sent w1 @ [(IDENTITY_PROVIDERS, - 1)]
      \<and> logged (snd (getIdpList c w)) = logged w1 @
           [Sprintln [''Error: when retrieving IDP count. Retrieving only the default count.'',
                      message e]])"
proof -
  have app: "n = - 1
      \<and> fst (getAppList c w) = Return (Applications lst)
      \<and> sent (snd (getAppList c w)) = sent w1 @ [(APPLICATIONS, - 1)]
      \<and> logged (snd (getAppList c w)) = logged w1 @
           [Sprintln [''Error while retrieving application count. Retrieving only the default count.'',
                      message e]]"
    if cnt: "getTotalAppCount c w = (Return (n, Some e), w1)"
      and req: "SendGetListRequest c APPLICATIONS (- 1) (net w1) = ((Some r, None), n')"
      and ok: "StatusCode r = 200" "content (Body r) = Inr raw" "json_AppList c raw = Inr lst"
  proof -
    from getTotalAppCount_failed [OF cnt] have n: "n = - 1" .
    show ?thesis
      using cnt req ok unfolding n
      by (simp add: getAppList_def send_def Println_def Close_def)
  qed
  have idp: "n = - 1
      \<and> fst (getIdpList c w) = Return (IdentityProviders lst', None)
      \<and> sent (snd (getIdpList c w)) = sent w1 @ [(IDENTITY_PROVIDERS, - 1)]
      \<and> logged (snd (getIdpList c w)) = logged w1 @
           [Sprintln [''Error: when retrieving IDP count. Retrieving only the default count.'',
                      message e]]"
    if cnt: "getTotalIdpCount c w = (Return (n, Some e), w1)"
      and req: "SendGetListRequest c IDENTITY_PROVIDERS (- 1) (net w1) = ((Some r, None), n')"
      and ok: "StatusCode r = 200" "content (Body r) = Inr raw" "json_idpList c raw = Inr lst'"
  proof -
    from getTotalIdpCount_failed [OF cnt] have n: "n = - 1" .
    show ?thesis
      using cnt req ok unfolding n
      by (simp add: getIdpList_def send_def Println_def Close_def)
  qed
  from app idp show ?thesis by blast
qed

theorem getList_after_failed_count_witness:
  "fst (getAppList (server answer_flaky) start) = Return three_apps
   \<and> length three_apps = 3
   \<and> sent (snd (getAppList (server answer_flaky) start)) = [(APPLICATIONS, - 1), (APPLICATIONS, - 1)]
   \<and> length (logged (snd (getAppList (server answer_flaky) start))) = 1
   \<and> fst (getIdpList (server answer_flaky) start) = Return (three_idps, None)
   \<and> sent (snd (getIdpList (server answer_flaky) start)) =
        [(IDENTITY_PROVIDERS, - 1), (IDENTITY_PROVIDERS, - 1)]
   \<and> length (logged (snd (getIdpList (server answer_flaky) start))) = 1"
proof -
  let ?r = "\<lparr>StatusCode = 200, Body = \<lparr>body_id = Suc 0, content = Inr ''three''\<rparr>\<rparr>"
  have A: "fst (getAppList (server answer_flaky) start) = Return three_apps
   \<and> sent (snd (getAppList (server answer_flaky) start)) = [(APPLICATIONS, - 1), (APPLICATIONS, - 1)]
   \<and> length (logged (snd (getAppList (server answer_flaky) start))) = 1"
    using getList_after_failed_count [where c = "server answer_flaky" and w = start and n = "- 1"
      and e = "Errorf_w ''failed to retrieve available app list. '' timeout"
      and ?w1.0 = "snd (getTotalAppCount (server answer_flaky) start)" and r = ?r
      and n' = "Suc (Suc 0)" and raw = "''three''"
      and lst = "\<lparr>AppCount = 3, Applications = three_apps\<rparr>"]
    by (simp add: getTotalAppCount_def demo_defs)
  have B: "fst (getIdpList (server answer_flaky) start) = Return (three_idps, None)
   \<and> sent (snd (getIdpList (server answer_flaky) start)) =
        [(IDENTITY_PROVIDERS, - 1), (IDENTITY_PROVIDERS, - 1)]
   \<and> length (logged (snd (getIdpList (server answer_flaky) start))) = 1"
    using getList_after_failed_count [where c = "server answer_flaky" and w = start and n = "- 1"
      and e = "Errorf_w ''failed to retrieve available IDP list. '' timeout"
      and ?w1.0 = "snd (getTotalIdpCount (server answer_flaky) start)" and r = ?r
      and n' = "Suc (Suc 0)" and raw = "''three''"
      and lst' = "\<lparr>IdpCount = 3, IdentityProviders = three_idps\<rparr>"]
    by (simp add: getTotalIdpCount_def demo_defs)
  from A B show ?thesis by (simp add: three_apps_def)
qed

text \<open>
  Claim C4 as stated fails for applications: \<open>getAppList\<close> has no error result. Here
  the count query succeeds and the list query answers 404; the caller gets the empty list,
  as from a server with no applications, and the failure is only in the log.
\<close>

theorem getAppList_returns_no_error:
  "getAppList (server answer_ok_then_404) start =
     (Return [], \<lparr>net = 2, sent = [(APPLICATIONS, - 1), (APPLICATIONS, 3)],
                  logged = [Sprintln [''Not Found'']], closed = [0, 0, 1]\<rparr>)"
  by (simp add: getAppList_def getTotalAppCount_def demo_defs)

text \<open>
  Claim C4, amended. For identity providers, a transport error of the list query makes
  \<open>getIdpList\<close> return an error that wraps the cause; a failure status makes it return
  an error with the status code and the classified message when the code is a recognised
  one, and a fixed message otherwise. For applications, \<open>getAppList\<close> returns no
  error: on a failure status it logs the classified message, or a fixed line when the code
  is not a recognised one, and returns the empty list.
\<close>

theorem list_failure_reporting:
  "(getTotalIdpCount c w = (Return (n, cerr), w1) \<longrightarrow>
      SendGetListRequest c IDENTITY_PROVIDERS n (net w1) = ((resp, Some e), n') \<longrightarrow>
      fst (getIdpList c w) =
        Return ([], Some (Error (''failed to retrieve available IDP list. '' @ message e) (Some e))))
   \<and> (getTotalIdpCount c w = (Return (n, cerr), w1) \<longrightarrow>
      SendGetListRequest c IDENTITY_PROVIDERS n (net w1) = ((Some r, None), n') \<longrightarrow>
      StatusCode r \<noteq> 200 \<longrightarrow> ErrorCodes c (StatusCode r) = Some msg \<longrightarrow>
      fst (getIdpList c w) =
        Return ([], Some (Error (''error while retrieving IDP list. Status code: ''
                                   @ fmt_d (StatusCode r) @ '', Error: '' @ msg) None)))
   \<and> (getTotalIdpCount c w = (Return (n, cerr), w1) \<longrightarrow>
      SendGetListRequest c IDENTITY_PROVIDERS n (net w1) = ((Some r, None), n') \<longrightarrow>
      StatusCode r \<noteq> 200 \<longrightarrow> ErrorCodes c (StatusCode r) = None \<longrightarrow>
      fst (getIdpList c w) =
        Return ([], Some (Error ''error while retrieving identity provider list'' None)))
   \<and> (getTotalAppCount c w = (Return (n, cerr), w1) \<longrightarrow>
      SendGetListRequest c APPLICATIONS n (net w1) = ((Some r, None), n') \<longrightarrow>
      StatusCode r \<noteq> 200 \<longrightarrow>
      fst (getAppList c w) = Return []
      \<and> last (logged (snd (getAppList c w))) =
          Sprintln [case ErrorCodes c (StatusCode r) of
                      Some msg \<Rightarrow> msg
                    | None \<Rightarrow> ''Error while retrieving application list''])"
  by (cases cerr; cases "ErrorCodes c (StatusCode r)")
     (simp_all add: getIdpList_def getAppList_def send_def Println_def Close_def Errorf_def Errorf_w_def)

theorem list_failure_reporting_witness:
  "fst (getIdpList (server answer_down) start) =
     Return ([], Some (Error ''failed to retrieve available IDP list. dial tcp: timeout'' (Some timeout)))
   \<and> fst (getIdpList (server answer_404) start) =
     Return ([], Some (Error ''error while retrieving IDP list. Status code: 404, Error: Not Found'' None))
   \<and> fst (getIdpList (server answer_500) start) =
     Return ([], Some (Error ''error while retrieving identity provider list'' None))
   \<and> fst (getAppList (server answer_ok_then_404) start) = Return []
   \<and> last (logged (snd (getAppList (server answer_ok_then_404) start))) = Sprintln [''Not Found'']"
proof -
  have a: "fst (getIdpList (server answer_down) start) =
     Return ([], Some (Error ''failed to retrieve available IDP list. dial tcp: timeout'' (Some timeout)))"
    using list_failure_reporting [where c = "server answer_down" and w = start and n = "- 1"
        and cerr = "Some (Errorf_w ''failed to retrieve available IDP list. '' timeout)"
        and ?w1.0 = "snd (getTotalIdpCount (server answer_down) start)"
        and resp = None and e = timeout and n' = 2]
    by (simp add: getTotalIdpCount_def demo_defs)
  have b: "fst (getIdpList (server answer_404) start) =
     Return ([], Some (Error ''error while retrieving IDP list. Status code: 404, Error: Not Found'' None))"
    using list_failure_reporting [where c = "server answer_404" and w = start and n = "- 1"
        and cerr = "Some (Errorf ''error while retrieving IDP count. Status code: 404, Error: Not Found'')"
        and ?w1.0 = "snd (getTotalIdpCount (server answer_404) start)"
        and r = "\<lparr>StatusCode = 404, Body = \<lparr>body_id = 1, content = Inr []\<rparr>\<rparr>"
        and msg = "''Not Found''" and n' = 2]
    by (simp add: getTotalIdpCount_def demo_defs fmt_d_def)
  have c: "fst (getIdpList (server answer_500) start) =
     Return ([], Some (Error ''error while retrieving identity provider list'' None))"
    using list_failure_reporting [where c = "server answer_500" and w = start and n = "- 1"
        and cerr = "Some (Errorf ''error while retrieving identity provider count'')"
        and ?w1.0 = "snd (getTotalIdpCount (server answer_500) start)"
        and r = "\<lparr>StatusCode = 500, Body = \<lparr>body_id = 1, content = Inr []\<rparr>\<rparr>"
        and n' = 2]
    by (simp add: getTotalIdpCount_def demo_defs)
  have d: "fst (getAppList (server answer_ok_then_404) start) = Return []
   \<and> last (logged (snd (getAppList (server answer_ok_then_404) start))) = Sprintln [''Not Found'']"
    using list_failure_reporting [where c = "server answer_ok_then_404" and w = start and n = 3
        and cerr = None
        and ?w1.0 = "snd (getTotalAppCount (server answer_ok_then_404) start)"
        and r = "\<lparr>StatusCode = 404, Body = \<lparr>body_id = 1, content = Inr []\<rparr>\<rparr>"
        and n' = 2]
    by (simp add: getTotalAppCount_def demo_defs)
  from a b c d show ?thesis by simp
qed

text \<open>
  Claim C5 fails on the code: when the list query of \<open>getAppList\<close> has a transport
  error and a nil response, the error is logged and the function goes on to
  \<open>resp.Body\<close>, which panics. (\<open>getIdpList\<close> and both count functions return
  before that.)
\<close>

theorem getAppList_transport_error_panics:
  "fst (getAppList (server answer_down) start) = Panic"
  by (simp add: getAppList_def getTotalAppCount_def demo_defs)

lemma getTotalIdpCount_returns:
  assumes "\<forall>rt n st. fst (SendGetListRequest c rt n st) \<noteq> (None, None)"
  shows "\<exists>r w'. getTotalIdpCount c w = (Return r, w')"
proof -
  obtain resp err n' where s: "SendGetListRequest c IDENTITY_PROVIDERS (- 1) (net w) = ((resp, err), n')"
    by (metis surj_pair)
  with assms have "(resp, err) \<noteq> (None, None)" by (metis fst_conv)
  with s show ?thesis
    by (auto simp: getTotalIdpCount_def send_def split: option.splits sum.splits)
qed

lemma getIdpList_returns:
  assumes "\<forall>rt n st. fst (SendGetListRequest c rt n st) \<noteq> (None, None)"
  shows "\<exists>r w'. getIdpList c w = (Return r, w')"
proof -
  from getTotalIdpCount_returns [OF assms, of w] obtain n cerr w1 where
    cnt: "getTotalIdpCount c w = (Return (n, cerr), w1)" by auto
  let ?w2 = "case cerr of
               Some e \<Rightarrow> Println [''Error: when retrieving IDP count. Retrieving only the default count.'',
                                   message e] w1
             | None \<Rightarrow> w1"
  obtain resp err n' where s: "SendGetListRequest c IDENTITY_PROVIDERS n (net ?w2) = ((resp, err), n')"
    by (metis surj_pair)
  with assms have "(resp, err) \<noteq> (None, None)" by (metis fst_conv)
  with s cnt show ?thesis
    by (auto simp: getIdpList_def send_def Let_def split: option.splits sum.splits)
qed

text \<open>
  Claim C10. \<open>getDeployedIdpNames\<close> has no error result: whenever \<open>getIdpList\<close>
  returns an error it returns the empty list of names, and whenever \<open>getIdpList\<close>
  returns a list and no error it returns the names of that list in the same order. It
  always returns, as long as the list request never answers with both a nil response and a
  nil error.
\<close>

theorem getDeployedIdpNames_outcome:
  "(getIdpList c w = (Return (idps, Some e), w') \<longrightarrow> getDeployedIdpNames c w = (Return [], w'))
   \<and> (getIdpList c w = (Return (idps, None), w') \<longrightarrow>
        getDeployedIdpNames c w = (Return (map idp_Name idps), w'))
   \<and> ((\<forall>rt n st. fst (SendGetListRequest c rt n st) \<noteq> (None, None)) \<longrightarrow>
        (\<exists>names. fst (getDeployedIdpNames c w) = Return names))"
proof -
  have "\<exists>names. fst (getDeployedIdpNames c w) = Return names"
    if "\<forall>rt n st. fst (SendGetListRequest c rt n st) \<noteq> (None, None)"
  proof -
    from getIdpList_returns [OF that, of w] obtain r w1 where "getIdpList c w = (Return r, w1)" by auto
    then show ?thesis by (cases r) (auto simp: getDeployedIdpNames_def split: option.splits)
  qed
  then show ?thesis by (simp add: getDeployedIdpNames_def)
qed

theorem getDeployedIdpNames_outcome_witness:
  "fst (getDeployedIdpNames (server answer_down) start) = Return []
   \<and> fst (getDeployedIdpNames (server answer_ok) start) = Return [''google'', ''github'', ''ldap'']
   \<and> (\<forall>rt n st. fst (SendGetListRequest (server answer_ok) rt n st) \<noteq> (None, None))
   \<and> (\<exists>names. fst (getDeployedIdpNames (server answer_ok) start) = Return names)"
proof -
  have a: "fst (getDeployedIdpNames (server answer_down) start) = Return []"
    using getDeployedIdpNames_outcome [where c = "server answer_down" and w = start and idps = "[]"
        and e = "Errorf_w ''failed to retrieve available IDP list. '' timeout"
        and w' = "snd (getIdpList (server answer_down) start)"]
    by (simp add: getIdpList_def getTotalIdpCount_def demo_defs)
  have b: "fst (getDeployedIdpNames (server answer_ok) start) = Return [''google'', ''github'', ''ldap'']"
    using getDeployedIdpNames_outcome [where c = "server answer_ok" and w = start and idps = three_idps
        and w' = "snd (getIdpList (server answer_ok) start)"]
    by (simp add: getIdpList_def getTotalIdpCount_def demo_defs three_idps_def)
  have h: "\<forall>rt n st. fst (SendGetListRequest (server answer_ok) rt n st) \<noteq> (None, None)"
    by (simp add: server_def answer_ok_def)
  from getDeployedIdpNames_outcome [where c = "server answer_ok" and w = start] h
  have c: "\<exists>names. fst (getDeployedIdpNames (server answer_ok) start) = Return names" by blast
  from a b h c show ?thesis by blast
qed

section \<open>Auth-type classifier: results\<close>

lemma isOauthApp_loop_iff:
  "isOauthApp_loop l xs = (\<exists>rc\<in>set xs. ToLower l (InboundAuthType rc) = OAUTH2)"
  by (induction xs) auto

lemma lower_byte_ascii:
  "(of_char (lower_byte ch) :: nat) < 128 \<Longrightarrow> (of_char ch :: nat) < 128"
  by (auto simp: lower_byte_def split: if_splits)

lemma ToLower_ascii:
  assumes "map lower_byte t = OAUTH2"
  shows "ToLower l t = OAUTH2"
proof -
  have "list_all (\<lambda>ch. (of_char ch :: nat) < 128) (map lower_byte t)"
    unfolding assms by (simp add: OAUTH2_def)
  then have "list_all (\<lambda>ch. (of_char ch :: nat) < 128) t"
    by (induction t) (auto dest: lower_byte_ascii)
  then show ?thesis using assms by (simp add: ToLower_def)
qed

lemma ToLower_demo: "ToLower l ''OAuth2'' = ''oauth2''" "ToLower l ''samlsso'' = ''samlsso''"
   "map lower_byte ''OAuth2'' = ''oauth2''"
  by code_simp+

text \<open>
  Claim C6. When the file parses, \<open>isOauthApp\<close> returns true exactly if some
  inbound-authentication-request entry has an \<open>authType\<close> that \<open>strings.ToLower\<close>
  maps to \<open>oauth2\<close>, in whatever letter case it is written, and it returns no error;
  with no entry at all the result is false and no error. It returns an error exactly if
  parsing fails.
\<close>

theorem isOauthApp_classifies:
  "(yaml_Unmarshal l s = Inr config \<longrightarrow>
      isOauthApp l s =
        ((\<exists>rc\<in>set (InboundAuthenticationRequestConfigs (InboundAuthenticationConfig config)).
            ToLower l (InboundAuthType rc) = ''oauth2''), None))
   \<and> (yaml_Unmarshal l s = Inr config \<longrightarrow>
        (\<exists>rc\<in>set (InboundAuthenticationRequestConfigs (InboundAuthenticationConfig config)).
            map lower_byte (InboundAuthType rc) = ''oauth2'') \<longrightarrow>
        isOauthApp l s = (True, None))
   \<and> (yaml_Unmarshal l s = Inr config \<longrightarrow>
        InboundAuthenticationRequestConfigs (InboundAuthenticationConfig config) = [] \<longrightarrow>
        isOauthApp l s = (False, None))
   \<and> (snd (isOauthApp l s) \<noteq> None \<longleftrightarrow> (\<exists>e. yaml_Unmarshal l s = Inl e))"
proof -
  have a: "isOauthApp l s =
        ((\<exists>rc\<in>set (InboundAuthenticationRequestConfigs (InboundAuthenticationConfig config)).
            ToLower l (InboundAuthType rc) = ''oauth2''), None)"
    if "yaml_Unmarshal l s = Inr config"
    using that by (simp add: isOauthApp_def unmarshalAuthConfig_def isOauthApp_loop_iff OAUTH2_def)
  have b: "isOauthApp l s = (True, None)"
    if "yaml_Unmarshal l s = Inr config"
      and "\<exists>rc\<in>set (InboundAuthenticationRequestConfigs (InboundAuthenticationConfig config)).
            map lower_byte (InboundAuthType rc) = ''oauth2''"
  proof -
    from that(2) obtain rc where
      rc: "rc \<in> set (InboundAuthenticationRequestConfigs (InboundAuthenticationConfig config))"
      and "map lower_byte (InboundAuthType rc) = OAUTH2" by (auto simp: OAUTH2_def)
    then have "ToLower l (InboundAuthType rc) = ''oauth2''"
      using ToLower_ascii [of "InboundAuthType rc" l] by (simp add: OAUTH2_def)
    with rc a [OF that(1)] show ?thesis by auto
  qed
  have c: "isOauthApp l s = (False, None)"
    if "yaml_Unmarshal l s = Inr config"
      and "InboundAuthenticationRequestConfigs (InboundAuthenticationConfig config) = []"
    using a [OF that(1)] that(2) by simp
  have d: "snd (isOauthApp l s) \<noteq> None \<longleftrightarrow> (\<exists>e. yaml_Unmarshal l s = Inl e)"
    by (cases "yaml_Unmarshal l s") (simp_all add: isOauthApp_def unmarshalAuthConfig_def)
  from a b c d show ?thesis by blast
qed

theorem isOauthApp_classifies_witness:
  "yaml_Unmarshal demo_lib ''oauth'' = Inr demo_config
   \<and> isOauthApp demo_lib ''oauth'' = (True, None)
   \<and> isOauthApp demo_lib ''empty'' = (False, None)
   \<and> snd (isOauthApp demo_lib ''junk'') \<noteq> None"
  using isOauthApp_classifies [of demo_lib "''oauth''" demo_config]
    isOauthApp_classifies [of demo_lib "''empty''"
      "\<lparr>InboundAuthenticationConfig = \<lparr>InboundAuthenticationRequestConfigs = []\<rparr>\<rparr>"]
    isOauthApp_classifies [of demo_lib "''junk''"]
  by (simp add: demo_lib_def demo_config_def ToLower_demo)

lemma secret_loop_imp_app_loop: "isOauthSecretGiven_loop l xs \<Longrightarrow> isOauthApp_loop l xs"
  by (induction xs) (auto split: if_splits)

text \<open>
  Claim C9. Whenever \<open>isOauthSecretGiven\<close> returns true and no error on a file,
  \<open>isOauthApp\<close> returns true and no error on the same file.
\<close>

theorem secret_given_implies_oauth_app:
  "isOauthSecretGiven l s = (True, None) \<Longrightarrow> isOauthApp l s = (True, None)"
  by (cases "yaml_Unmarshal l s")
     (auto simp: isOauthSecretGiven_def isOauthApp_def unmarshalAuthConfig_def
           dest: secret_loop_imp_app_loop)

theorem secret_given_implies_oauth_app_witness:
  "isOauthSecretGiven demo_lib ''oauth'' = (True, None) \<and> isOauthApp demo_lib ''oauth'' = (True, None)"
proof -
  have h: "isOauthSecretGiven demo_lib ''oauth'' = (True, None)"
    by (simp add: isOauthSecretGiven_def unmarshalAuthConfig_def demo_lib_def demo_config_def
          ToLower_demo OAUTH2_def)
  from h secret_given_implies_oauth_app [OF h] show ?thesis by simp
qed

section \<open>Protected-resource guard: results\<close>

lemma isToolMgtApp_loop_iff:
  "isToolMgtApp_loop l xs = (\<exists>rc\<in>set xs. InboundAuthKey rc = ClientId l)"
  by (induction xs) auto

text \<open>
  Claim C2. \<open>isToolMgtApp\<close> returns a non-nil error and false when the file cannot
  be read, and when it cannot be parsed; when it parses, it returns no error, and true
  exactly if some inbound-authentication-request entry has an \<open>authKey\<close> equal, byte
  for byte, to the configured client id.
\<close>

theorem isToolMgtApp_guard:
  "(ReadFile l (filepath_Join l importFilePath (file_Name file)) = Inl e \<longrightarrow>
      fst (isToolMgtApp l file importFilePath) =
        (False, Some (Errorf (''failed to read file: '' @ message e))))
   \<and> (ReadFile l (filepath_Join l importFilePath (file_Name file)) = Inr fileData \<longrightarrow>
        yaml_Unmarshal l fileData = Inl e \<longrightarrow>
        fst (isToolMgtApp l file importFilePath) =
          (False, Some (Errorf (Sprintf0 l (''failed to unmarshal auth config: '' @ message e)))))
   \<and> (ReadFile l (filepath_Join l importFilePath (file_Name file)) = Inr fileData \<longrightarrow>
        yaml_Unmarshal l fileData = Inr config \<longrightarrow>
        fst (isToolMgtApp l file importFilePath) =
          ((\<exists>rc\<in>set (InboundAuthenticationRequestConfigs (InboundAuthenticationConfig config)).
              InboundAuthKey rc = ClientId l), None))"
  by (simp add: isToolMgtApp_def unmarshalAuthConfig_def isToolMgtApp_loop_iff Errorf_def)

theorem isToolMgtApp_guard_witness:
  "fst (isToolMgtApp demo_lib \<lparr>file_Name = ''app.yml''\<rparr> ''dir'') = (True, None)
   \<and> fst (isToolMgtApp (demo_lib\<lparr>ClientId := ''CLIENT1''\<rparr>) \<lparr>file_Name = ''app.yml''\<rparr> ''dir'') = (False, None)
   \<and> fst (isToolMgtApp demo_lib \<lparr>file_Name = ''bad.yml''\<rparr> ''dir'') =
        (False, Some (Error ''failed to unmarshal auth config: yaml: bad'' None))
   \<and> fst (isToolMgtApp demo_lib \<lparr>file_Name = ''gone.yml''\<rparr> ''dir'') =
        (False, Some (Error ''failed to read file: open: no such file'' None))"
  using isToolMgtApp_guard [of demo_lib "''dir''" "\<lparr>file_Name = ''app.yml''\<rparr>" _ "''oauth''" demo_config]
    isToolMgtApp_guard [of "demo_lib\<lparr>ClientId := ''CLIENT1''\<rparr>" "''dir''" "\<lparr>file_Name = ''app.yml''\<rparr>" _ "''oauth''" demo_config]
    isToolMgtApp_guard [of demo_lib "''dir''" "\<lparr>file_Name = ''bad.yml''\<rparr>" "Error ''yaml: bad'' None" "''???''"]
    isToolMgtApp_guard [of demo_lib "''dir''" "\<lparr>file_Name = ''gone.yml''\<rparr>" "Error ''open: no such file'' None"]
  by (simp add: demo_lib_def demo_config_def Errorf_def)

section \<open>Keyword resolver: results\<close>

text \<open>
  Claim C8. For every resource name, with no override table for the resource type the
  global mapping is returned as it is; with an override table the result is that of
  \<open>ResolveAdvancedKeywordMapping\<close> on the resource name and the table. This holds for
  applications and for identity providers.
\<close>

theorem keyword_mapping_default_or_override:
  "(ApplicationConfigs K = None \<longrightarrow> getAppKeywordMapping R K name = KeywordMappings K)
   \<and> (ApplicationConfigs K = Some table \<longrightarrow> getAppKeywordMapping R K name = R name table)
   \<and> (IdpConfigs K = None \<longrightarrow> getIdpKeywordMapping R K name = KeywordMappings K)
   \<and> (IdpConfigs K = Some table' \<longrightarrow> getIdpKeywordMapping R K name = R name table')"
  by (simp add: getAppKeywordMapping_def getIdpKeywordMapping_def)

theorem keyword_mapping_default_or_override_witness:
  "getAppKeywordMapping demo_resolve demo_keywords ''app1'' = Some [''ENV'' \<mapsto> 1]
   \<and> getIdpKeywordMapping demo_resolve demo_keywords ''idp1'' = Some [''ENV'' \<mapsto> 2, ''NAME'' \<mapsto> 4]
   \<and> getIdpKeywordMapping demo_resolve (demo_keywords\<lparr>IdpConfigs := None\<rparr>) ''idp1'' = Some [''ENV'' \<mapsto> 1]
   \<and> getAppKeywordMapping demo_resolve (demo_keywords\<lparr>ApplicationConfigs := Some Map.empty\<rparr>) ''app1''
        = Some [''NAME'' \<mapsto> 4]"
  using keyword_mapping_default_or_override [of demo_keywords demo_resolve "''app1''" _ "[''ENV'' \<mapsto> 2]"]
    keyword_mapping_default_or_override [of demo_keywords demo_resolve "''idp1''" _ "[''ENV'' \<mapsto> 2]"]
    keyword_mapping_default_or_override [of "demo_keywords\<lparr>IdpConfigs := None\<rparr>" demo_resolve "''idp1''"]
    keyword_mapping_default_or_override [of "demo_keywords\<lparr>ApplicationConfigs := Some Map.empty\<rparr>" demo_resolve "''app1''" Map.empty]
  by (simp add: demo_keywords_def demo_resolve_def)

section \<open>Secret masker: the search and its results\<close>

subsection \<open>Literals and whitespace\<close>

lemma literal_iff: "literal p s = Some r \<longleftrightarrow> s = p @ r"
  by (induction p s rule: literal.induct) auto

lemma literal_None_iff: "literal p s = None \<longleftrightarrow> (\<forall>r. s \<noteq> p @ r)"
  using literal_iff [of p s] by (cases "literal p s") auto

lemma isSpace_NL [simp]: "isSpace NL"
  by (simp add: isSpace_def NL_def)

lemma label_facts [simp]:
  "label \<noteq> []" "hd label = CHR ''o''" "\<not> isSpace (hd label)" "NL \<notin> set label"
  by (simp_all add: label_def isSpace_def NL_def)

lemma null_facts [simp]:
  "\<not> isSpace (CHR ''n'')" "\<not> isSpace (CHR ''o'')" "NL \<notin> set ''null''"
  by (simp_all add: isSpace_def NL_def)

lemma skip_nonspace: "s = [] \<or> \<not> isSpace (hd s) \<Longrightarrow> dropWhile isSpace s = s"
  by (cases s) auto

lemma sp_nonspace: "s = [] \<or> \<not> isSpace (hd s) \<Longrightarrow> takeWhile isSpace s = []"
  by (cases s) auto

lemma skip_head: "dropWhile isSpace s = [] \<or> \<not> isSpace (hd (dropWhile isSpace s))"
  using hd_dropWhile [of isSpace s] by blast

lemma skip_spaces: "list_all isSpace ws \<Longrightarrow> dropWhile isSpace (ws @ s) = dropWhile isSpace s"
  by (simp add: list_all_iff)

lemma sp_spaces: "list_all isSpace ws \<Longrightarrow> takeWhile isSpace (ws @ s) = ws @ takeWhile isSpace s"
  by (simp add: list_all_iff)

lemma sp_all: "list_all isSpace (takeWhile isSpace s)"
  by (induction s) auto

subsection \<open>The end of a match\<close>

lemma spaces_eol_None_iff:
  "spaces_eol (length ws) (ws @ z) = None \<longleftrightarrow> \<not> at_eol z \<and> NL \<notin> set ws"
proof (induction ws arbitrary: z rule: rev_induct)
  case Nil
  then show ?case by simp
next
  case (snoc ch ws)
  have "spaces_eol (length ws) (ws @ ch # z) = None \<longleftrightarrow> \<not> at_eol (ch # z) \<and> NL \<notin> set ws"
    using snoc.IH [of "ch # z"] by simp
  then show ?case by (auto simp: at_eol_def)
qed

lemma at_eol_nonspace: "s = [] \<or> \<not> isSpace (hd s) \<Longrightarrow> at_eol s \<longleftrightarrow> s = []"
  by (cases s) (auto simp: at_eol_def)

lemma at_eol_skip: "at_eol (dropWhile isSpace s) \<longleftrightarrow> dropWhile isSpace s = []"
  using at_eol_nonspace [OF skip_head] .

lemma eol_None_iff:
  "spaces_eol (length (takeWhile isSpace s)) s = None
     \<longleftrightarrow> dropWhile isSpace s \<noteq> [] \<and> NL \<notin> set (takeWhile isSpace s)"
  using spaces_eol_None_iff [of "takeWhile isSpace s" "dropWhile isSpace s"]
  by (simp add: at_eol_skip)

lemma eol_SomeD:
  assumes "spaces_eol (length (takeWhile isSpace s)) s = Some (a, rest)"
  shows "s = a @ rest \<and> list_all isSpace a \<and> at_eol rest"
proof -
  from spaces_eol_SomeD [OF assms] obtain j where
    j: "j \<le> length (takeWhile isSpace s)" "a = take j s" "rest = drop j s" "at_eol rest" by blast
  have "take j s = take j (takeWhile isSpace s @ dropWhile isSpace s)" by simp
  also have "\<dots> = take j (takeWhile isSpace s)" using j(1) by (simp del: takeWhile_dropWhile_id)
  finally have "set a \<subseteq> set (takeWhile isSpace s)" using j(2) by (simp add: set_take_subset)
  then have "list_all isSpace a" by (auto simp: list_all_iff dest: set_takeWhileD)
  with j show ?thesis by simp
qed

subsection \<open>A match at the head\<close>

lemma match_at_None_iff:
  "match_at s = None \<longleftrightarrow>
     \<not> (\<exists>r2 r4. dropWhile isSpace s = label @ r2 \<and> dropWhile isSpace r2 = ''null'' @ r4
           \<and> (dropWhile isSpace r4 = [] \<or> NL \<in> set (takeWhile isSpace r4)))"
proof (cases "literal label (dropWhile isSpace s)")
  case None
  then have "\<forall>r. dropWhile isSpace s \<noteq> label @ r" by (simp add: literal_None_iff)
  with None show ?thesis by (simp add: match_at_def)
next
  case r2: (Some r2)
  show ?thesis
  proof (cases "literal ''null'' (dropWhile isSpace r2)")
    case None
    then have "\<forall>r. dropWhile isSpace r2 \<noteq> ''null'' @ r" by (simp add: literal_None_iff)
    moreover from r2 have "dropWhile isSpace s = label @ r2" by (simp add: literal_iff)
    ultimately show ?thesis using r2 None by (auto simp: match_at_def)
  next
    case r4: (Some r4)
    have "match_at s = None \<longleftrightarrow> spaces_eol (length (takeWhile isSpace r4)) r4 = None"
      by (simp add: match_at_def r2 r4 split: option.splits)
    also have "\<dots> \<longleftrightarrow> dropWhile isSpace r4 \<noteq> [] \<and> NL \<notin> set (takeWhile isSpace r4)"
      by (rule eol_None_iff)
    finally show ?thesis using r2 r4 by (auto simp: literal_iff)
  qed
qed

lemma match_at_SomeD:
  assumes "match_at s = Some (g1, m, rest)"
  shows "\<exists>r2 ws3. dropWhile isSpace s = label @ r2
           \<and> dropWhile isSpace r2 = ''null'' @ ws3 @ rest
           \<and> g1 = takeWhile isSpace s @ label @ takeWhile isSpace r2
           \<and> m = ''null'' @ ws3 \<and> list_all isSpace ws3 \<and> at_eol rest"
proof -
  from assms obtain r2 r4 ws3 where
    r2: "literal label (dropWhile isSpace s) = Some r2" and
    r4: "literal ''null'' (dropWhile isSpace r2) = Some r4" and
    e: "spaces_eol (length (takeWhile isSpace r4)) r4 = Some (ws3, rest)" and
    g: "g1 = takeWhile isSpace s @ label @ takeWhile isSpace r2" "m = ''null'' @ ws3"
    by (auto simp: match_at_def split: option.splits)
  from eol_SomeD [OF e] r2 r4 g show ?thesis by (auto simp: literal_iff)
qed

lemma match_at_whole:
  assumes "match_at s = Some (g1, m, rest)"
  shows "s = g1 @ m @ rest"
proof -
  from match_at_SomeD [OF assms] obtain r2 ws3 where
    a: "dropWhile isSpace s = label @ r2" "dropWhile isSpace r2 = ''null'' @ ws3 @ rest"
       "g1 = takeWhile isSpace s @ label @ takeWhile isSpace r2" "m = ''null'' @ ws3" by blast
  have "s = takeWhile isSpace s @ label @ r2"
    using takeWhile_dropWhile_id [of isSpace s] a(1) by simp
  moreover have "r2 = takeWhile isSpace r2 @ ''null'' @ ws3 @ rest"
    using takeWhile_dropWhile_id [of isSpace r2] a(2) by simp
  ultimately show ?thesis using a(3,4) by simp
qed

lemma match_at_spaces:
  "list_all isSpace ws \<Longrightarrow>
     match_at (ws @ s) = map_option (\<lambda>(g1, m, rest). (ws @ g1, m, rest)) (match_at s)"
  by (simp add: match_at_def skip_spaces sp_spaces split: option.splits)

lemma match_at_spaces_None:
  "list_all isSpace ws \<Longrightarrow> match_at (ws @ s) = None \<longleftrightarrow> match_at s = None"
  by (simp add: match_at_spaces)

lemma match_at_skip_None: "match_at (dropWhile isSpace s) = None \<longleftrightarrow> match_at s = None"
  using match_at_spaces_None [OF sp_all, of s "dropWhile isSpace s"] by simp

lemma match_at_head:
  assumes "\<not> isSpace ch" "ch \<noteq> CHR ''o''"
  shows "match_at (ch # s) = None"
  using assms by (auto simp: match_at_None_iff label_def)


subsection \<open>The search\<close>

declare replaceAll.simps(2) [simp del]

lemma RA_nomatch:
  "\<not> bol \<or> match_at (ch # s) = None \<Longrightarrow>
     replaceAll M bol (ch # s) = ch # replaceAll M (ch = NL) s"
  by (auto simp: replaceAll.simps(2))

lemma RA_match:
  "match_at (ch # s) = Some (g1, m, rest) \<Longrightarrow>
     replaceAll M True (ch # s) = g1 @ M @ replaceAll M (last m = NL) rest"
  by (simp add: replaceAll.simps(2))

lemma match_at_Nil [simp]: "match_at [] = None"
  by (simp add: match_at_None_iff)

lemma RA_False_eq: "match_at s = None \<Longrightarrow> replaceAll M b s = replaceAll M False s"
  by (cases s) (simp_all add: RA_nomatch)

lemma RA_cons_ex: "\<exists>y. replaceAll M b (ch # s) = ch # y"
proof (cases "b \<and> match_at (ch # s) \<noteq> None")
  case True
  then obtain g1 m rest where mt: "match_at (ch # s) = Some (g1, m, rest)" by auto
  from match_at_SomeD [OF mt] obtain g' where "g1 = takeWhile isSpace (ch # s) @ label @ g'" by blast
  then have "g1 \<noteq> []" by simp
  then obtain c g'' where g: "g1 = c # g''" by (cases g1) auto
  with match_at_whole [OF mt] have "c = ch" by simp
  with g RA_match [OF mt, of M] True show ?thesis by simp
next
  case False
  then have "\<not> b \<or> match_at (ch # s) = None" by blast
  from RA_nomatch [OF this] show ?thesis by simp
qed

lemma RA_Nil_iff [simp]: "replaceAll M b s = [] \<longleftrightarrow> s = []"
  using RA_cons_ex [of M b] by (cases s) (auto, metis list.distinct(1))

lemma RA_hd: "s \<noteq> [] \<Longrightarrow> hd (replaceAll M b s) = hd s"
  using RA_cons_ex [of M b] by (cases s) (auto, metis list.sel(1))

lemma RA_nonspace_head:
  "s = [] \<or> \<not> isSpace (hd s) \<Longrightarrow> replaceAll M b s = [] \<or> \<not> isSpace (hd (replaceAll M b s))"
  by (cases "s = []") (simp_all add: RA_hd)

lemma RA_spaces:
  "list_all isSpace ws \<Longrightarrow> replaceAll M b (ws @ t) = ws @ replaceAll M (b \<or> NL \<in> set ws) t"
proof (induction ws arbitrary: b)
  case Nil
  then show ?case by simp
next
  case (Cons c ws)
  then have ws: "list_all isSpace ws" and cws: "list_all isSpace (c # ws)" by simp_all
  show ?case
  proof (cases "b \<and> match_at (c # ws @ t) \<noteq> None")
    case True
    then obtain g1 m rest where mt: "match_at ((c # ws) @ t) = Some (g1, m, rest)" by auto
    with match_at_spaces [OF cws, of t] obtain g' where
      t: "match_at t = Some (g', m, rest)" and g: "g1 = (c # ws) @ g'" by (auto split: option.splits)
    from t obtain ch' t' where t': "t = ch' # t'" by (cases t) auto
    from mt have "replaceAll M True (c # ws @ t) = g1 @ M @ replaceAll M (last m = NL) rest"
      by (simp add: RA_match)
    moreover from t have "replaceAll M True t = g' @ M @ replaceAll M (last m = NL) rest"
      unfolding t' by (rule RA_match)
    ultimately show ?thesis using True g by simp
  next
    case False
    then have nm: "\<not> b \<or> match_at (c # ws @ t) = None" by blast
    from RA_nomatch [OF this]
    have "replaceAll M b ((c # ws) @ t) = c # replaceAll M (c = NL) (ws @ t)"
      by simp
    also have "\<dots> = c # ws @ replaceAll M (c = NL \<or> NL \<in> set ws) t"
      by (simp add: Cons.IH [OF ws])
    also have "replaceAll M (c = NL \<or> NL \<in> set ws) t = replaceAll M (b \<or> NL \<in> set (c # ws)) t"
    proof (cases b)
      case True
      with nm have "match_at ((c # ws) @ t) = None" by simp
      then have "match_at t = None" using match_at_spaces_None [OF cws] by simp
      then show ?thesis using RA_False_eq [of t M] by metis
    next
      case False
      then show ?thesis by (simp add: eq_commute)
    qed
    finally show ?thesis by simp
  qed
qed

lemma RA_block: "NL \<notin> set p \<Longrightarrow> replaceAll M False (p @ t) = p @ replaceAll M False t"
  by (induction p) (auto simp: RA_nomatch)

lemma RA_prefix_inv:
  "NL \<notin> set p \<Longrightarrow> replaceAll M False t = p @ r \<Longrightarrow> \<exists>r'. t = p @ r' \<and> r = replaceAll M False r'"
proof (induction p arbitrary: t)
  case Nil
  then show ?case by simp
next
  case (Cons c p)
  from Cons.prems(2) have "t \<noteq> []" by auto
  then obtain ch s where t: "t = ch # s" by (cases t) auto
  with Cons.prems have "ch = c" "replaceAll M False s = p @ r"
    by (auto simp: RA_nomatch)
  with Cons.IH [of s] Cons.prems(1) t show ?case by auto
qed

subsection \<open>The mask as a barrier\<close>

lemma mask_barrier1: "mask_ok M \<Longrightarrow> match_at (M @ z) = None"
proof -
  assume ok: "mask_ok M"
  then obtain c M' where M: "M = c # M'" "\<not> isSpace c" "c \<noteq> CHR ''o''"
    by (cases M) (auto simp: mask_ok_def)
  then show ?thesis by (auto simp: match_at_None_iff label_def)
qed

lemma mask_barrier2:
  "mask_ok M \<Longrightarrow> list_all isSpace ws \<Longrightarrow> match_at (label @ ws @ M @ z) = None"
proof -
  assume ok: "mask_ok M" and ws: "list_all isSpace ws"
  from ok obtain c M' where M: "M = c # M'" "\<not> isSpace c" "c \<noteq> CHR ''n''"
    by (cases M) (auto simp: mask_ok_def)
  have 1: "dropWhile isSpace (label @ ws @ M @ z) = label @ ws @ M @ z"
    by (rule skip_nonspace) simp
  have 2: "dropWhile isSpace (ws @ M @ z) = M @ z"
    using M by (simp add: skip_spaces [OF ws])
  show ?thesis unfolding match_at_None_iff
  proof (intro notI, elim exE conjE)
    fix r2 r4
    assume a: "dropWhile isSpace (label @ ws @ M @ z) = label @ r2"
      and b: "dropWhile isSpace r2 = ''null'' @ r4"
    from a 1 have "r2 = ws @ M @ z" by simp
    with b 2 have "M @ z = ''null'' @ r4" by simp
    with M show False by simp
  qed
qed


subsection \<open>No match is left in the output\<close>

lemma output_head_nonspace:
  assumes ok: "mask_ok M" and t: "t = [] \<or> \<not> isSpace (hd t)" and nm: "match_at t = None"
  shows "match_at (replaceAll M False t) = None"
proof (rule ccontr)
  assume "match_at (replaceAll M False t) \<noteq> None"
  then obtain r2y r4y where
    y1: "dropWhile isSpace (replaceAll M False t) = label @ r2y" and
    y2: "dropWhile isSpace r2y = ''null'' @ r4y" and
    y3: "dropWhile isSpace r4y = [] \<or> NL \<in> set (takeWhile isSpace r4y)"
    unfolding match_at_None_iff by blast
  have "dropWhile isSpace (replaceAll M False t) = replaceAll M False t"
    by (rule skip_nonspace) (rule RA_nonspace_head [OF t])
  with y1 have "replaceAll M False t = label @ r2y" by simp
  from RA_prefix_inv [OF label_facts(4) this] obtain r2 where
    r2: "t = label @ r2" "r2y = replaceAll M False r2" by blast
  let ?t3 = "dropWhile isSpace r2"
  let ?b2 = "NL \<in> set (takeWhile isSpace r2)"
  have "r2y = takeWhile isSpace r2 @ replaceAll M ?b2 ?t3"
    using RA_spaces [OF sp_all, of M False r2 ?t3] r2(2) by simp
  then have "dropWhile isSpace r2y = dropWhile isSpace (replaceAll M ?b2 ?t3)"
    by (simp add: skip_spaces [OF sp_all])
  also have "\<dots> = replaceAll M ?b2 ?t3"
    by (rule skip_nonspace) (rule RA_nonspace_head [OF skip_head])
  finally have y3': "replaceAll M ?b2 ?t3 = ''null'' @ r4y" using y2 by simp
  then have "replaceAll M ?b2 ?t3 \<noteq> []" by simp
  then have "?t3 \<noteq> []" unfolding RA_Nil_iff .
  then obtain ch s3 where t3: "?t3 = ch # s3" by (cases ?t3) auto
  from RA_cons_ex [of M ?b2 ch s3] y3' have "ch = CHR ''n''" unfolding t3 by auto
  then have "match_at ?t3 = None"
    unfolding t3 by (intro match_at_head) simp_all
  from RA_False_eq [OF this, of M ?b2] y3' have "replaceAll M False ?t3 = ''null'' @ r4y" by simp
  from RA_prefix_inv [OF null_facts(3) this] obtain r4 where
    r4: "?t3 = ''null'' @ r4" "r4y = replaceAll M False r4" by blast
  let ?t5 = "dropWhile isSpace r4"
  let ?b4 = "NL \<in> set (takeWhile isSpace r4)"
  have r4y: "r4y = takeWhile isSpace r4 @ replaceAll M ?b4 ?t5"
    using RA_spaces [OF sp_all, of M False r4 ?t5] r4(2) by simp
  have h5: "replaceAll M ?b4 ?t5 = [] \<or> \<not> isSpace (hd (replaceAll M ?b4 ?t5))"
    by (rule RA_nonspace_head [OF skip_head])
  have "dropWhile isSpace r4y = replaceAll M ?b4 ?t5"
    unfolding r4y by (simp add: skip_spaces [OF sp_all] skip_nonspace [OF h5])
  moreover have "takeWhile isSpace r4y = takeWhile isSpace r4"
    unfolding r4y by (simp add: sp_spaces [OF sp_all] sp_nonspace [OF h5])
  ultimately have "?t5 = [] \<or> NL \<in> set (takeWhile isSpace r4)" using y3 by simp
  moreover have "dropWhile isSpace t = label @ r2"
    using r2(1) skip_nonspace [OF t] by simp
  ultimately have "match_at t \<noteq> None"
    unfolding match_at_None_iff using r4(1) by blast
  with nm show False by simp
qed

lemma output_head:
  assumes ok: "mask_ok M" and nm: "match_at t = None"
  shows "match_at (replaceAll M b t) = None"
proof -
  let ?t1 = "dropWhile isSpace t"
  have t1: "match_at ?t1 = None" using nm by (simp add: match_at_skip_None)
  have "replaceAll M b t = takeWhile isSpace t @ replaceAll M (b \<or> NL \<in> set (takeWhile isSpace t)) ?t1"
    using RA_spaces [OF sp_all, of M b t ?t1] by simp
  also have "\<dots> = takeWhile isSpace t @ replaceAll M False ?t1"
    using RA_False_eq [OF t1] by simp
  finally have "match_at (replaceAll M b t) = None \<longleftrightarrow> match_at (replaceAll M False ?t1) = None"
    by (simp add: match_at_spaces_None [OF sp_all])
  with output_head_nonspace [OF ok skip_head t1] show ?thesis by simp
qed

lemma has_match_nomatch: "match_at s = None \<Longrightarrow> has_match b s = has_match False s"
  by (cases s) simp_all

lemma has_match_spaces:
  "list_all isSpace ws \<Longrightarrow> match_at z = None \<Longrightarrow> \<not> has_match False z \<Longrightarrow> \<not> has_match b (ws @ z)"
proof (induction ws arbitrary: b)
  case Nil
  then show ?case using has_match_nomatch [of z b] by simp
next
  case (Cons c ws)
  from Cons.prems(1) have ws: "list_all isSpace ws" by simp
  have "match_at ((c # ws) @ z) = None"
    using match_at_spaces_None [OF Cons.prems(1), of z] Cons.prems(2) by simp
  moreover have "\<not> has_match (c = NL) (ws @ z)"
    by (rule Cons.IH [OF ws Cons.prems(2,3)])
  ultimately show ?case by simp
qed

lemma has_match_block: "NL \<notin> set p \<Longrightarrow> has_match False (p @ z) = has_match False z"
  by (induction p) auto

lemma output_no_match:
  "mask_ok M \<Longrightarrow> (b' \<longrightarrow> b) \<Longrightarrow> \<not> has_match b' (replaceAll M b x)"
proof (induction x arbitrary: b b' rule: length_induct)
  case (1 x)
  note ok = \<open>mask_ok M\<close>
  show ?case
  proof (cases x)
    case Nil
    then show ?thesis by simp
  next
    case (Cons ch s)
    show ?thesis
    proof (cases "b \<and> match_at x \<noteq> None")
      case True
      then obtain g1 m rest where mt: "match_at (ch # s) = Some (g1, m, rest)"
        unfolding Cons by auto
      let ?y2 = "replaceAll M (last m = NL) rest"
      from match_at_shorter [OF mt] have "length rest < length x" by (simp add: Cons)
      with 1 have ih: "\<not> has_match False ?y2" by simp
      from match_at_SomeD [OF mt] obtain r2 where
        g1: "g1 = takeWhile isSpace x @ label @ takeWhile isSpace r2" unfolding Cons by blast
      from ok have nl: "NL \<notin> set M" by (simp add: mask_ok_def)
      have 1: "\<not> has_match False (M @ ?y2)" using ih by (simp add: has_match_block [OF nl])
      have 2: "match_at (M @ ?y2) = None" by (rule mask_barrier1 [OF ok])
      have 3: "\<not> has_match False (takeWhile isSpace r2 @ M @ ?y2)"
        by (rule has_match_spaces [OF sp_all 2 1])
      have 4: "match_at (label @ takeWhile isSpace r2 @ M @ ?y2) = None"
        by (rule mask_barrier2 [OF ok sp_all])
      have 5: "\<not> has_match False (label @ takeWhile isSpace r2 @ M @ ?y2)"
        using 3 by (simp add: has_match_block)
      have "\<not> has_match b' (takeWhile isSpace x @ label @ takeWhile isSpace r2 @ M @ ?y2)"
        by (rule has_match_spaces [OF sp_all 4 5])
      moreover have "replaceAll M b x = g1 @ M @ ?y2"
        using True RA_match [OF mt] by (simp add: Cons)
      ultimately show ?thesis by (simp add: g1)
    next
      case False
      then have nm: "\<not> b \<or> match_at (ch # s) = None" unfolding Cons by blast
      have y: "replaceAll M b x = ch # replaceAll M (ch = NL) s"
        unfolding Cons by (rule RA_nomatch [OF nm])
      have "\<not> has_match (ch = NL) (replaceAll M (ch = NL) s)"
        using 1 by (simp add: Cons)
      moreover have "match_at (replaceAll M b x) = None" if "b'"
      proof -
        from that 1(3) nm have "match_at x = None" by (simp add: Cons)
        then show ?thesis by (rule output_head [OF ok])
      qed
      ultimately show ?thesis unfolding y by auto
    qed
  qed
qed

lemma no_match_unchanged: "\<not> has_match b y \<Longrightarrow> replaceAll M b y = y"
proof (induction y arbitrary: b)
  case Nil
  then show ?case by simp
next
  case (Cons ch s)
  then have "\<not> b \<or> match_at (ch # s) = None" and "\<not> has_match (ch = NL) s"
    unfolding has_match.simps by blast+
  with RA_nomatch [of b ch s M] Cons.IH [of "ch = NL"] show ?case by simp
qed

text \<open>
  Claim C7. The masker is idempotent: for every input \<open>x\<close>, masking the masked
  \<open>x\<close> gives the masked \<open>x\<close> again. The mask is the constant
  \<open>utils.SENSITIVE_FIELD_MASK\<close>, which is not in the sources; the result holds for
  every mask that satisfies \<open>mask_ok\<close>, such as a row of asterisks.
\<close>

theorem mask_idempotent:
  "mask_ok M \<Longrightarrow>
     maskOAuthConsumerSecret M (maskOAuthConsumerSecret M x) = maskOAuthConsumerSecret M x"
  unfolding maskOAuthConsumerSecret_def
  by (rule no_match_unchanged) (rule output_no_match, simp_all)

theorem mask_idempotent_witness:
  "mask_ok ''********''
   \<and> maskOAuthConsumerSecret ''********''
        (maskOAuthConsumerSecret ''********'' ''oauthConsumerSecret: null  \<newline>\<newline>oauthConsumerSecret:\<newline> null'')
     = maskOAuthConsumerSecret ''********'' ''oauthConsumerSecret: null  \<newline>\<newline>oauthConsumerSecret:\<newline> null''
   \<and> maskOAuthConsumerSecret ''********'' ''oauthConsumerSecret: null  \<newline>\<newline>oauthConsumerSecret:\<newline> null''
     = ''oauthConsumerSecret: ********\<newline>oauthConsumerSecret:\<newline> ********''"
proof -
  have h: "mask_ok ''********''" by (simp add: mask_ok_def NL_def isSpace_def)
  have e: "maskOAuthConsumerSecret ''********'' ''oauthConsumerSecret: null  \<newline>\<newline>oauthConsumerSecret:\<newline> null''
     = ''oauthConsumerSecret: ********\<newline>oauthConsumerSecret:\<newline> ********''"
    by code_simp
  from h e mask_idempotent [OF h, of "''oauthConsumerSecret: null  \<newline>\<newline>oauthConsumerSecret:\<newline> null''"]
  show ?thesis by simp
qed

subsection \<open>What the masker changes\<close>

text \<open>
  The relation \<open>masked\<close> lets a place be rewritten only where the search itself finds
  a match: on a text in which the search finds none, it relates the text to itself alone.
  So it does not relate a text with the label in the middle of a line to a rewritten one.
\<close>

lemma site_is_match:
  assumes ws1: "list_all isSpace ws1" and ws2: "list_all isSpace ws2" and ws3: "list_all isSpace ws3"
    and eol: "at_eol xs"
  shows "match_at (ws1 @ label @ ws2 @ ''null'' @ ws3 @ xs) \<noteq> None"
proof -
  let ?r2 = "ws2 @ ''null'' @ ws3 @ xs"
  let ?r4 = "ws3 @ xs"
  have 1: "dropWhile isSpace (ws1 @ label @ ?r2) = label @ ?r2"
    by (simp add: skip_spaces [OF ws1] skip_nonspace)
  have 2: "dropWhile isSpace ?r2 = ''null'' @ ?r4"
    by (simp add: skip_spaces [OF ws2])
  have 3: "dropWhile isSpace ?r4 = [] \<or> NL \<in> set (takeWhile isSpace ?r4)"
  proof (cases xs)
    case Nil
    then show ?thesis using ws3 by (simp add: list_all_iff)
  next
    case (Cons c xs')
    with eol have "c = NL" by (simp add: at_eol_def)
    then show ?thesis using Cons by (simp add: sp_spaces [OF ws3])
  qed
  from 1 2 3 show ?thesis unfolding match_at_None_iff by blast
qed

lemma masked_needs_match: "masked M b x y \<Longrightarrow> \<not> has_match b x \<Longrightarrow> y = x"
proof (induction rule: masked.induct)
  case (masked_Nil M bol)
  then show ?case by simp
next
  case (masked_keep ch M xs ys bol)
  then show ?case by simp
next
  case (masked_site bol ws1 ws2 ws3 xs M ys)
  let ?x = "ws1 @ label @ ws2 @ ''null'' @ ws3 @ xs"
  have m: "match_at ?x \<noteq> None"
    by (rule site_is_match [OF masked_site.hyps(2,3,4,5)])
  then obtain c t where x: "?x = c # t" by (cases ?x) auto
  from m masked_site.hyps(1) have "has_match bol ?x" unfolding x by simp
  with masked_site.prems show ?case by simp
qed

lemma masked_is_anchored:
  "\<not> masked ''********'' True ''x oauthConsumerSecret: null'' ''x oauthConsumerSecret: ********''"
proof
  assume m: "masked ''********'' True ''x oauthConsumerSecret: null'' ''x oauthConsumerSecret: ********''"
  have "\<not> has_match True ''x oauthConsumerSecret: null''" by code_simp
  from masked_needs_match [OF m this] show False by simp
qed





end
